theory Spec2Isabelle
  imports Main
begin

section \<open>The bridge of the LLB solver (solver/llbsolver/bridge.go)\<close>

text \<open>
  The development follows bridge.go: the result proxy (\<open>resultProxy\<close> with \<open>Result\<close>,
  \<open>Release\<close>, \<open>loadResult\<close>, \<open>wrapError\<close>), the registry of cache managers inside
  \<open>llbBridge.loadResult\<close> with \<open>cmKey\<close>, the lazy cache manager, and the entitlement gate
  of \<open>Run\<close> and \<open>Exec\<close>. Pointers to result objects are natural numbers (the identity of
  the object), nil is \<open>None\<close>, a Go pair \<open>(value, error)\<close> is a pair of options, and a
  run-time panic is the value \<open>Panics\<close>.
\<close>

subsection \<open>Values\<close>

type_synonym digest = string
type_synonym result_ref = nat
type_synonym capture = nat
type_synonym source_info = string
type_synonym pb_range = "(int \<times> int) \<times> (int \<times> int)"

datatype 'a outcome = Panics | Returns 'a

text \<open>Go's \<open>x != nil\<close> on a pointer or an interface value.\<close>

definition nonnil :: "'a option \<Rightarrow> bool" where
  "nonnil x = (case x of None \<Rightarrow> False | Some _ \<Rightarrow> True)"

text \<open>\<open>errdefs.Source\<close>: the annotation that \<open>wrapError\<close> builds for one location.\<close>

datatype source = Source (Info: source_info) (Ranges: "pb_range list")

text \<open>
  Modelled from the spec: the error types of the packages errors, solver/errdefs and
  solver/llbsolver/errdefs are not under src/. An error is a chain. \<open>Errorf\<close> is
  \<open>errors.Errorf\<close> with its format and arguments (a leaf: \<open>%v\<close> does not wrap).
  \<open>VertexError\<close> identifies the failing graph node by its digest. \<open>ExecError\<close> is the
  structured execution error: the partial results that its \<open>EachRef\<close> enumerates, its
  \<open>OwnerBorrowed\<close> flag, and the error it wraps. \<open>ErrorSource\<close> is what
  \<open>errdefs.WithSource\<close> returns: the error with one more source annotation attached.
\<close>

datatype error =
    Errorf string "error list"
  | VertexError digest error
  | ExecError "result_ref list" bool error
  | ErrorSource source error

text \<open>\<open>errors.As(err, &ve)\<close> for \<open>*errdefs.VertexError\<close>: the first one down the chain.\<close>

fun as_VertexError :: "error \<Rightarrow> digest option" where
  "as_VertexError (Errorf f args) = None"
| "as_VertexError (VertexError dgst e) = Some dgst"
| "as_VertexError (ExecError refs ob e) = as_VertexError e"
| "as_VertexError (ErrorSource src e) = as_VertexError e"

text \<open>
  \<open>errors.As(err, &ee)\<close> for \<open>*llberrdefs.ExecError\<close>, followed by \<open>ee.EachRef\<close>: the
  partial results of the first \<open>ExecError\<close> down the chain.
\<close>

fun as_ExecError :: "error \<Rightarrow> result_ref list option" where
  "as_ExecError (Errorf f args) = None"
| "as_ExecError (VertexError dgst e) = as_ExecError e"
| "as_ExecError (ExecError refs ob e) = Some refs"
| "as_ExecError (ErrorSource src e) = as_ExecError e"

text \<open>
  \<open>ee.OwnerBorrowed = true\<close> through the pointer that \<open>errors.As\<close> found: the same
  chain with the flag of its first \<open>ExecError\<close> set.
\<close>

fun set_OwnerBorrowed :: "error \<Rightarrow> error" where
  "set_OwnerBorrowed (Errorf f args) = Errorf f args"
| "set_OwnerBorrowed (VertexError dgst e) = VertexError dgst (set_OwnerBorrowed e)"
| "set_OwnerBorrowed (ExecError refs ob e) = ExecError refs True e"
| "set_OwnerBorrowed (ErrorSource src e) = ErrorSource src (set_OwnerBorrowed e)"

text \<open>
  Modelled from the spec: the release-on-finalize logic of the execution error is not under
  src/. It releases the partial results of the error unless ownership was borrowed
  ("mark them as owned by the error path, so the generic release-on-finalize logic of that
  error type is suppressed"). The value is the list of results the finalizer releases.
\<close>

fun ExecError_finalize :: "error \<Rightarrow> result_ref list" where
  "ExecError_finalize (Errorf f args) = []"
| "ExecError_finalize (VertexError dgst e) = ExecError_finalize e"
| "ExecError_finalize (ExecError refs ob e) = (if ob then [] else refs)"
| "ExecError_finalize (ErrorSource src e) = ExecError_finalize e"

text \<open>
  The source annotations that an error carries, in the order in which they were attached
  (the innermost first).
\<close>

fun annotations :: "error \<Rightarrow> source list" where
  "annotations (Errorf f args) = []"
| "annotations (VertexError dgst e) = annotations e"
| "annotations (ExecError refs ob e) = annotations e"
| "annotations (ErrorSource src e) = annotations e @ [src]"

subsection \<open>The request and its source map\<close>

datatype location = Location (SourceIndex: int) (loc_Ranges: "pb_range list")

record pb_Source =
  Locations :: "digest \<rightharpoonup> location list"
  Infos :: "source_info list"

record pb_Definition =
  def_Source :: "pb_Source option"

record SolveRequest =
  Definition :: "pb_Definition option"

subsection \<open>wrapError\<close>

text \<open>
  The loop of \<open>wrapError\<close> over \<open>locs.Locations\<close>. \<open>Infos[loc.SourceIndex]\<close> panics when
  the index is negative or not below the length of \<open>Infos\<close>.
\<close>

definition source_of :: "source_info list \<Rightarrow> location \<Rightarrow> source" where
  "source_of infos loc = Source (infos ! nat (SourceIndex loc)) (loc_Ranges loc)"

fun attach :: "source_info list \<Rightarrow> location list \<Rightarrow> error \<Rightarrow> error outcome" where
  "attach infos [] err = Returns err"
| "attach infos (loc # locs) err =
     (if 0 \<le> SourceIndex loc \<and> SourceIndex loc < int (length infos)
      then attach infos locs (ErrorSource (source_of infos loc) err)
      else Panics)"

text \<open>
  What the loop computes when no index is out of range: the error with one annotation for
  each location, the first location innermost.
\<close>

definition in_range :: "source_info list \<Rightarrow> location \<Rightarrow> bool" where
  "in_range infos loc = (0 \<le> SourceIndex loc \<and> SourceIndex loc < int (length infos))"

fun attached :: "source_info list \<Rightarrow> location list \<Rightarrow> error \<Rightarrow> error" where
  "attached infos [] err = err"
| "attached infos (loc # locs) err = attached infos locs (ErrorSource (source_of infos loc) err)"

definition wrapError :: "SolveRequest \<Rightarrow> error option \<Rightarrow> error option outcome" where
  "wrapError rq err =
     (case err of
        None \<Rightarrow> Returns None
      | Some e \<Rightarrow>
          (case as_VertexError e of
             None \<Rightarrow> Returns (Some e)
           | Some dgst \<Rightarrow>
               (case Definition rq of
                  None \<Rightarrow> Panics
                | Some d \<Rightarrow>
                    (case def_Source d of
                       None \<Rightarrow> Returns (Some e)
                     | Some src \<Rightarrow>
                         (case Locations src dgst of
                            None \<Rightarrow> Returns (Some e)
                          | Some locs \<Rightarrow>
                              (case attach (Infos src) locs e of
                                 Panics \<Rightarrow> Panics
                               | Returns e' \<Rightarrow> Returns (Some e')))))))"

subsection \<open>The result proxy\<close>

text \<open>
  A context is what the code reads of it: whether \<open>ctx.Done()\<close> is closed when the
  evaluation has returned.
\<close>

record ctx =
  ctx_done :: bool

text \<open>
  The collaborators outside bridge.go. \<open>build n c\<close> is what \<open>rp.b.loadResult\<close> returns
  the \<open>n\<close>-th time it is called (from 0), with context \<open>c\<close>: every failing path of
  \<open>llbBridge.loadResult\<close> returns \<open>nil, err\<close>, the last one \<open>res, nil\<close>.
  \<open>isCanceled\<close> is \<open>errdefs.IsCanceled\<close>. \<open>releaseResult c log r\<close> is what
  \<open>r.Release(c)\<close> returns when the results in \<open>log\<close> have been released before.
\<close>

record env =
  build :: "nat \<Rightarrow> ctx \<Rightarrow> error + result_ref option"
  isCanceled :: "ctx \<Rightarrow> error \<Rightarrow> bool"
  captureProvenance :: "ctx \<Rightarrow> result_ref option \<Rightarrow> capture option \<times> error option"
  releaseResult :: "ctx \<Rightarrow> result_ref list \<Rightarrow> result_ref \<Rightarrow> error option"

text \<open>
  The fields of \<open>resultProxy\<close> that the methods read and write, and three observations
  of the proxy's effects: \<open>released_log\<close> lists every result object on which \<open>Release\<close>
  was called, in order; \<open>evals\<close> counts the calls of the underlying evaluation;
  \<open>warnings\<close> counts the "release of already released result" warnings.
\<close>

record resultProxy =
  rp_req :: SolveRequest
  rp_released :: bool
  rp_v :: "result_ref option"
  rp_err :: "error option"
  rp_errResults :: "result_ref list"
  rp_provenance :: "capture option"
  released_log :: "result_ref list"
  evals :: nat
  warnings :: nat

definition newResultProxy :: "SolveRequest \<Rightarrow> resultProxy" where
  "newResultProxy rq =
     \<lparr>rp_req = rq, rp_released = False, rp_v = None, rp_err = None, rp_errResults = [],
      rp_provenance = None, released_log = [], evals = 0, warnings = 0\<rparr>"

text \<open>The first loop of \<open>Release\<close>: the named result \<open>err\<close> and the log are threaded.\<close>

fun release_errResults ::
  "env \<Rightarrow> ctx \<Rightarrow> result_ref list \<Rightarrow> error option \<times> result_ref list
     \<Rightarrow> error option \<times> result_ref list" where
  "release_errResults E c [] (err, log) = (err, log)"
| "release_errResults E c (res # rest) (err, log) =
     (let rerr = releaseResult E c log res
      in release_errResults E c rest (if nonnil rerr then rerr else err, log @ [res]))"

definition Release :: "env \<Rightarrow> ctx \<Rightarrow> resultProxy \<Rightarrow> error option \<times> resultProxy" where
  "Release E c rp =
     (case release_errResults E c (rp_errResults rp) (None, released_log rp) of
        (err, log) \<Rightarrow>
          (case rp_v rp of
             None \<Rightarrow> (err, rp\<lparr>rp_released := True, released_log := log\<rparr>)
           | Some v \<Rightarrow>
               (let w = (if rp_released rp then Suc (warnings rp) else warnings rp);
                    rerr = releaseResult E c log v;
                    rp1 = rp\<lparr>released_log := log @ [v], warnings := w\<rparr>
                in if nonnil err then (rerr, rp1)
                   else (err, rp1\<lparr>rp_released := True\<rparr>))))"

text \<open>
  \<open>resultProxy.loadResult\<close>: the evaluation, then the partial results of an execution
  error are appended to \<open>errResults\<close> and the error is marked as borrowed.
\<close>

definition loadResult ::
  "env \<Rightarrow> ctx \<Rightarrow> resultProxy \<Rightarrow> (result_ref option \<times> error option) \<times> resultProxy" where
  "loadResult E c rp =
     (let rp1 = rp\<lparr>evals := Suc (evals rp)\<rparr>
      in case build E (evals rp) c of
           Inr res \<Rightarrow> ((res, None), rp1)
         | Inl e \<Rightarrow>
             (case as_ExecError e of
                None \<Rightarrow> ((None, Some e), rp1)
              | Some refs \<Rightarrow>
                  ((None, Some (set_OwnerBorrowed e)),
                   rp1\<lparr>rp_errResults := rp_errResults rp @ refs\<rparr>)))"

text \<open>
  Between \<open>rp.mu.Unlock()\<close> and the second \<open>rp.mu.Lock()\<close> of \<open>Result\<close> the mutex is
  free, and a \<open>Release\<close> of another goroutine can run there: before the evaluation starts
  or after it has returned.
\<close>

datatype inflight = NoRelease | ReleaseBefore ctx | ReleaseAfter ctx

definition before_eval :: "env \<Rightarrow> inflight \<Rightarrow> resultProxy \<Rightarrow> resultProxy" where
  "before_eval E w rp = (case w of ReleaseBefore c \<Rightarrow> snd (Release E c rp) | _ \<Rightarrow> rp)"

definition after_eval :: "env \<Rightarrow> inflight \<Rightarrow> resultProxy \<Rightarrow> resultProxy" where
  "after_eval E w rp = (case w of ReleaseAfter c \<Rightarrow> snd (Release E c rp) | _ \<Rightarrow> rp)"

text \<open>
  The second critical section of the function that \<open>Result\<close> passes to \<open>rp.g.Do\<close>.
  What \<open>v.Release(context.TODO())\<close> returns is discarded there; the release is recorded
  in the log. A call of \<open>v.Release\<close> on a nil \<open>v\<close> panics.
\<close>

definition store_result ::
  "env \<Rightarrow> ctx \<Rightarrow> result_ref option \<Rightarrow> error option \<Rightarrow> resultProxy
     \<Rightarrow> (result_ref option \<times> error option) outcome \<times> resultProxy" where
  "store_result E c v err rp =
     (if rp_released rp then
        (Returns (None, Some (Errorf ''evaluating released result'' [])),
         (case v of
            None \<Rightarrow> rp
          | Some r \<Rightarrow> rp\<lparr>released_log := released_log rp @ [r]\<rparr>))
      else
        (case err of
           Some e \<Rightarrow> (Returns (v, Some e), rp\<lparr>rp_v := v, rp_err := Some e\<rparr>)
         | None \<Rightarrow>
             (case captureProvenance E c v of
                (cap, None) \<Rightarrow>
                  (Returns (v, None), rp\<lparr>rp_provenance := cap, rp_v := v, rp_err := None\<rparr>)
              | (cap, Some ce) \<Rightarrow>
                  (case v of
                     None \<Rightarrow> (Panics, rp)
                   | Some r \<Rightarrow>
                       (let e' = Errorf ''failed to capture provenance: %v'' [ce]
                        in (Returns (None, Some e'),
                            rp\<lparr>released_log := released_log rp @ [r], rp_provenance := cap,
                               rp_v := None, rp_err := Some e'\<rparr>))))))"

text \<open>
  The test after \<open>rp.loadResult\<close>: there is an error, \<open>ctx.Done()\<close> is closed and
  \<open>errdefs.IsCanceled(ctx, err)\<close> holds.
\<close>

definition canceled :: "env \<Rightarrow> ctx \<Rightarrow> error option \<Rightarrow> bool" where
  "canceled E c err = (case err of None \<Rightarrow> False | Some e \<Rightarrow> ctx_done c \<and> isCanceled E c e)"

text \<open>
  The function passed to \<open>rp.g.Do\<close>. The flight-control group is modelled for one caller
  at a time: \<open>Do\<close> runs the function once with the caller's context.
\<close>

definition Result_fn ::
  "env \<Rightarrow> ctx \<Rightarrow> inflight \<Rightarrow> resultProxy
     \<Rightarrow> (result_ref option \<times> error option) outcome \<times> resultProxy" where
  "Result_fn E c w rp =
     (if rp_released rp then
        (Returns (None, Some (Errorf ''accessing released result'' [])), rp)
      else if nonnil (rp_v rp) \<or> nonnil (rp_err rp) then
        (Returns (rp_v rp, rp_err rp), rp)
      else
        (case loadResult E c (before_eval E w rp) of
           ((v, err), rp1) \<Rightarrow>
             (let rp2 = after_eval E w rp1
              in if canceled E c err then (Returns (v, err), rp2)
                 else store_result E c v err rp2)))"

text \<open>\<open>Result\<close>: the deferred \<open>wrapError\<close> rewrites the error that is returned.\<close>

definition Result ::
  "env \<Rightarrow> ctx \<Rightarrow> inflight \<Rightarrow> resultProxy
     \<Rightarrow> (result_ref option \<times> error option) outcome \<times> resultProxy" where
  "Result E c w rp =
     (case Result_fn E c w rp of
        (Panics, rp') \<Rightarrow> (Panics, rp')
      | (Returns (v, err), rp') \<Rightarrow>
          (case wrapError (rp_req rp') err of
             Panics \<Rightarrow> (Panics, rp')
           | Returns err' \<Rightarrow> (Returns (v, err'), rp')))"

text \<open>A run of \<open>Result\<close> calls, one after the other, each with its context.\<close>

fun Result_calls ::
  "env \<Rightarrow> (ctx \<times> inflight) list \<Rightarrow> resultProxy
     \<Rightarrow> (result_ref option \<times> error option) outcome list \<times> resultProxy" where
  "Result_calls E [] rp = ([], rp)"
| "Result_calls E ((c, w) # cs) rp =
     (case Result E c w rp of
        (r, rp1) \<Rightarrow> (case Result_calls E cs rp1 of (rs, rp2) \<Rightarrow> (r # rs, rp2)))"

subsection \<open>The key of a cache source and the registry of cache managers\<close>

record CacheOptionsEntry =
  im_Type :: string
  im_Attrs :: "string \<rightharpoonup> string"

text \<open>\<open>im.Attrs[k]\<close>: a missing key reads as the empty string.\<close>

definition attr :: "CacheOptionsEntry \<Rightarrow> string \<Rightarrow> string" where
  "attr im k = (case im_Attrs im k of None \<Rightarrow> [] | Some s \<Rightarrow> s)"

text \<open>The verb \<open>%d\<close> of \<open>fmt.Sprintf\<close> on an unsigned integer.\<close>

fun decimal :: "nat \<Rightarrow> string" where
  "decimal n =
     (if n < 10 then [''0123456789'' ! n]
      else decimal (n div 10) @ [''0123456789'' ! (n mod 10)])"

declare decimal.simps [simp del]

text \<open>
  \<open>cmKey\<close>. The parameter \<open>hash\<close> is \<open>hashstructure.Hash(im, hashstructure.FormatV2, nil)\<close>,
  a function of the entry's value that returns a 64-bit unsigned number or an error.
\<close>

definition cmKey ::
  "(CacheOptionsEntry \<Rightarrow> error + nat) \<Rightarrow> CacheOptionsEntry \<Rightarrow> error + string" where
  "cmKey hash im =
     (if im_Type im = ''registry'' \<and> attr im ''ref'' \<noteq> []
      then Inr (attr im ''ref'')
      else (case hash im of
              Inl err \<Rightarrow> Inl err
            | Inr i \<Rightarrow> Inr (im_Type im @ '':'' @ decimal i)))"

subsection \<open>The lazy cache manager\<close>

type_synonym cache_key = nat
type_synonym cache_record = nat
type_synonym query = "cache_key list \<times> nat \<times> digest \<times> nat"
type_synonym save_args = "cache_key \<times> result_ref \<times> nat"

text \<open>
  A resolved \<open>solver.CacheManager\<close>: what each of its methods returns. A nil slice is the
  empty list.
\<close>

record CacheManager =
  cm_Query :: "query \<Rightarrow> cache_key list \<times> error option"
  cm_Records :: "cache_key \<Rightarrow> cache_record list \<times> error option"
  cm_Load :: "cache_record \<Rightarrow> result_ref option \<times> error option"
  cm_Save :: "save_args \<Rightarrow> cache_key option \<times> error option"
  cm_ReleaseUnreferenced :: "ctx \<Rightarrow> error option"

text \<open>
  \<open>lazyCacheManager\<close>. \<open>waitCh_closed\<close> says whether the channel \<open>waitCh\<close> has been
  closed; \<open>lcm_im\<close> is the cache source captured by the function given to
  \<open>newLazyCacheManager\<close>.
\<close>

record lazyCacheManager =
  lcm_id :: string
  lcm_main :: "CacheManager option"
  waitCh_closed :: bool
  lcm_err :: "error option"
  lcm_im :: CacheOptionsEntry

text \<open>\<open>newLazyCacheManager\<close> returns the manager before its goroutine has finished.\<close>

definition newLazyCacheManager :: "string \<Rightarrow> CacheOptionsEntry \<Rightarrow> lazyCacheManager" where
  "newLazyCacheManager cmID im =
     \<lparr>lcm_id = cmID, lcm_main = None, waitCh_closed = False, lcm_err = None, lcm_im = im\<rparr>"

text \<open>
  The goroutine of \<open>newLazyCacheManager\<close> once \<open>fn()\<close> has returned \<open>(cm, err)\<close>: it
  records the error or the manager, and the deferred \<open>close(lcm.waitCh)\<close> runs.
\<close>

definition resolution_finished ::
  "CacheManager option \<times> error option \<Rightarrow> lazyCacheManager \<Rightarrow> lazyCacheManager" where
  "resolution_finished r lz =
     (case r of
        (cm, Some err) \<Rightarrow> lz\<lparr>lcm_err := Some err, waitCh_closed := True\<rparr>
      | (cm, None) \<Rightarrow> lz\<lparr>lcm_main := cm, waitCh_closed := True\<rparr>)"

text \<open>
  \<open>wait\<close> receives from \<open>waitCh\<close>: it blocks until the channel is closed. A call that
  blocks for ever has the value \<open>None\<close>.
\<close>

definition wait :: "lazyCacheManager \<Rightarrow> error option option" where
  "wait lz = (if waitCh_closed lz then Some (lcm_err lz) else None)"

definition Query ::
  "lazyCacheManager \<Rightarrow> query \<Rightarrow> (cache_key list \<times> error option) outcome option" where
  "Query lz q =
     (case wait lz of
        None \<Rightarrow> None
      | Some ignored \<Rightarrow>
          (case lcm_main lz of
             None \<Rightarrow> Some (Returns ([], None))
           | Some m \<Rightarrow> Some (Returns (cm_Query m q))))"

definition Records ::
  "lazyCacheManager \<Rightarrow> cache_key \<Rightarrow> (cache_record list \<times> error option) outcome option" where
  "Records lz ck =
     (case wait lz of
        None \<Rightarrow> None
      | Some ignored \<Rightarrow>
          (case lcm_main lz of
             None \<Rightarrow> Some (Returns ([], None))
           | Some m \<Rightarrow> Some (Returns (cm_Records m ck))))"

text \<open>
  \<open>Load\<close>, \<open>Save\<close> and \<open>ReleaseUnreferenced\<close> return the error of \<open>wait\<close>; without
  one they call the method on \<open>lcm.main\<close>, which panics on a nil interface value.
\<close>

definition Load ::
  "lazyCacheManager \<Rightarrow> cache_record \<Rightarrow> (result_ref option \<times> error option) outcome option" where
  "Load lz rec =
     (case wait lz of
        None \<Rightarrow> None
      | Some (Some err) \<Rightarrow> Some (Returns (None, Some err))
      | Some None \<Rightarrow>
          (case lcm_main lz of
             None \<Rightarrow> Some Panics
           | Some m \<Rightarrow> Some (Returns (cm_Load m rec))))"

definition Save ::
  "lazyCacheManager \<Rightarrow> save_args \<Rightarrow> (cache_key option \<times> error option) outcome option" where
  "Save lz a =
     (case wait lz of
        None \<Rightarrow> None
      | Some (Some err) \<Rightarrow> Some (Returns (None, Some err))
      | Some None \<Rightarrow>
          (case lcm_main lz of
             None \<Rightarrow> Some Panics
           | Some m \<Rightarrow> Some (Returns (cm_Save m a))))"

definition ReleaseUnreferenced ::
  "lazyCacheManager \<Rightarrow> ctx \<Rightarrow> error option outcome option" where
  "ReleaseUnreferenced lz c =
     (case wait lz of
        None \<Rightarrow> None
      | Some (Some err) \<Rightarrow> Some (Returns (Some err))
      | Some None \<Rightarrow>
          (case lcm_main lz of
             None \<Rightarrow> Some Panics
           | Some m \<Rightarrow> Some (Returns (cm_ReleaseUnreferenced m c))))"

subsection \<open>The bridge: registry of cache managers, entitlements, executor\<close>

datatype NetMode = NetMode_UNSET | NetMode_HOST | NetMode_NONE

datatype SecurityMode = SecurityMode_SANDBOX | SecurityMode_INSECURE

text \<open>
  \<open>executor.ProcessInfo\<close>: the two fields of \<open>p.Meta\<close> that the bridge reads. The
  other fields of a process are the extension of the record.
\<close>

record ProcessInfo =
  meta_NetMode :: NetMode
  meta_SecurityMode :: SecurityMode

text \<open>\<open>entitlements.Values\<close>.\<close>

record Values =
  NetworkHost :: bool
  SecurityInsecure :: bool

type_synonym worker = nat
type_synonym executor = nat
type_synonym recorder = nat
type_synonym mount = nat

text \<open>
  The collaborators of the bridge: \<open>loadEntitlements(b.builder)\<close>, the method \<open>Check\<close>
  of the entitlement set it returns, \<open>b.resolveWorker()\<close>, \<open>w.Executor()\<close>, and the
  methods \<open>Run\<close> and \<open>Exec\<close> of the executor.
\<close>

record 'ent bridge_env =
  loadEntitlements :: "error + 'ent"
  ent_Check :: "'ent \<Rightarrow> Values \<Rightarrow> error option"
  resolveWorker :: "error + worker"
  worker_Executor :: "worker \<Rightarrow> executor option"
  executor_Run ::
    "executor \<Rightarrow> string \<Rightarrow> mount \<Rightarrow> mount list \<Rightarrow> ProcessInfo \<Rightarrow> recorder option \<times> error option"
  executor_Exec :: "executor \<Rightarrow> string \<Rightarrow> ProcessInfo \<Rightarrow> error option"

text \<open>
  \<open>llbBridge\<close>. The lazy cache managers live in a store, \<open>lcms\<close>, and are named by their
  address (their position in it); \<open>cms\<close> maps a key to the address of its manager.
  \<open>executorOnce\<close> says whether \<open>b.executorOnce\<close> has fired. Two observations of the
  effects: \<open>worker_resolved\<close> counts the calls of \<open>b.resolveWorker\<close> by \<open>loadExecutor\<close>,
  \<open>executor_calls\<close> lists the ids of the calls forwarded to the executor.
\<close>

record llbBridge =
  cms :: "string \<rightharpoonup> nat"
  lcms :: "lazyCacheManager list"
  executorOnce :: bool
  executorErr :: "error option"
  executor :: "executor option"
  worker_resolved :: nat
  executor_calls :: "string list"

text \<open>
  The loop of \<open>llbBridge.loadResult\<close> over \<open>cacheImports\<close> (lines 102 to 138): the
  accumulator is the slice \<open>cms\<close> of the managers' addresses. An error of \<open>cmKey\<close>
  returns from \<open>loadResult\<close> and keeps the managers registered so far.
\<close>

fun resolve_cacheImports ::
  "(CacheOptionsEntry \<Rightarrow> error + nat) \<Rightarrow> CacheOptionsEntry list \<Rightarrow> nat list \<Rightarrow> llbBridge
     \<Rightarrow> (error + nat list) \<times> llbBridge" where
  "resolve_cacheImports hash [] acc b = (Inr acc, b)"
| "resolve_cacheImports hash (im # ims) acc b =
     (case cmKey hash im of
        Inl err \<Rightarrow> (Inl err, b)
      | Inr cmID \<Rightarrow>
          (case cms b cmID of
             None \<Rightarrow>
               (let cm = length (lcms b)
                in resolve_cacheImports hash ims (acc @ [cm])
                     (b\<lparr>cms := (cms b)(cmID \<mapsto> cm),
                        lcms := lcms b @ [newLazyCacheManager cmID im]\<rparr>))
           | Some prevCm \<Rightarrow> resolve_cacheImports hash ims (acc @ [prevCm]) b))"

definition validateEntitlements ::
  "'ent bridge_env \<Rightarrow> 'a ProcessInfo_scheme \<Rightarrow> error option" where
  "validateEntitlements B p =
     (case loadEntitlements B of
        Inl err \<Rightarrow> Some err
      | Inr ent \<Rightarrow>
          ent_Check B ent
            \<lparr>NetworkHost = (meta_NetMode p = NetMode_HOST),
             SecurityInsecure = (meta_SecurityMode p = SecurityMode_INSECURE)\<rparr>)"

text \<open>\<open>loadExecutor\<close>: the body of \<open>executorOnce.Do\<close> runs on the first call only.\<close>

definition loadExecutor :: "'ent bridge_env \<Rightarrow> llbBridge \<Rightarrow> error option \<times> llbBridge" where
  "loadExecutor B b =
     (if executorOnce b then (executorErr b, b)
      else
        (case resolveWorker B of
           Inl err \<Rightarrow>
             (Some err,
              b\<lparr>executorOnce := True, executorErr := Some err,
                worker_resolved := Suc (worker_resolved b)\<rparr>)
         | Inr w \<Rightarrow>
             (executorErr b,
              b\<lparr>executorOnce := True, executor := worker_Executor B w,
                worker_resolved := Suc (worker_resolved b)\<rparr>)))"

text \<open>
  \<open>Run\<close> and \<open>Exec\<close>. The channel \<open>started\<close> of \<open>Run\<close> is handed to the executor and
  is left out. A call of a method on the nil \<open>b.executor\<close> panics.
\<close>

definition Run ::
  "'ent bridge_env \<Rightarrow> string \<Rightarrow> mount \<Rightarrow> mount list \<Rightarrow> ProcessInfo \<Rightarrow> llbBridge
     \<Rightarrow> (recorder option \<times> error option) outcome \<times> llbBridge" where
  "Run B ident rootfs mounts process b =
     (case validateEntitlements B process of
        Some err \<Rightarrow> (Returns (None, Some err), b)
      | None \<Rightarrow>
          (case loadExecutor B b of
             (Some err, b1) \<Rightarrow> (Returns (None, Some err), b1)
           | (None, b1) \<Rightarrow>
               (case executor b1 of
                  None \<Rightarrow> (Panics, b1)
                | Some ex \<Rightarrow>
                    (Returns (executor_Run B ex ident rootfs mounts process),
                     b1\<lparr>executor_calls := executor_calls b1 @ [ident]\<rparr>))))"

definition Exec ::
  "'ent bridge_env \<Rightarrow> string \<Rightarrow> ProcessInfo \<Rightarrow> llbBridge \<Rightarrow> error option outcome \<times> llbBridge" where
  "Exec B ident process b =
     (case validateEntitlements B process of
        Some err \<Rightarrow> (Returns (Some err), b)
      | None \<Rightarrow>
          (case loadExecutor B b of
             (Some err, b1) \<Rightarrow> (Returns (Some err), b1)
           | (None, b1) \<Rightarrow>
               (case executor b1 of
                  None \<Rightarrow> (Panics, b1)
                | Some ex \<Rightarrow>
                    (Returns (executor_Exec B ex ident process),
                     b1\<lparr>executor_calls := executor_calls b1 @ [ident]\<rparr>))))"

text \<open>
  Modelled from the spec: the method \<open>Check\<close> of the entitlement set (package
  util/entitlements) is not under src/. "Network-host and insecure-security requests are
  checked explicitly against boolean grants; a mismatch fails with an entitlement error."
\<close>

record Grants =
  allow_NetworkHost :: bool
  allow_SecurityInsecure :: bool

definition entitlements_Check :: "Grants \<Rightarrow> Values \<Rightarrow> error option" where
  "entitlements_Check s v =
     (if NetworkHost v \<and> \<not> allow_NetworkHost s
      then Some (Errorf ''network.host is not allowed'' [])
      else if SecurityInsecure v \<and> \<not> allow_SecurityInsecure s
      then Some (Errorf ''security.insecure is not allowed'' [])
      else None)"


subsection \<open>Concrete runs\<close>

text \<open>A request whose definition carries no source map, and two contexts.\<close>

definition rq0 :: SolveRequest where
  "rq0 = \<lparr>Definition = Some \<lparr>def_Source = None\<rparr>\<rparr>"

definition ctx_live :: ctx where
  "ctx_live = \<lparr>ctx_done = False\<rparr>"

definition ctx_canceled :: ctx where
  "ctx_canceled = \<lparr>ctx_done = True\<rparr>"

text \<open>
  A builder that succeeds with result 7; provenance capture yields capture 1; every
  release succeeds.
\<close>

definition env_ok :: env where
  "env_ok =
     \<lparr>build = (\<lambda>n c. Inr (Some 7)),
      isCanceled = (\<lambda>c e. False),
      captureProvenance = (\<lambda>c v. (Some 1, None)),
      releaseResult = (\<lambda>c log r. None)\<rparr>"

text \<open>
  A builder whose first evaluation is canceled with an execution error that exposes the
  partial result 3, and whose later evaluations succeed with result 7. Releasing result 3
  fails, every other release succeeds.
\<close>

definition err_canceled :: error where
  "err_canceled = ExecError [3] False (Errorf ''context canceled'' [])"

definition env_retry :: env where
  "env_retry =
     \<lparr>build = (\<lambda>n c. if n = 0 then Inl err_canceled else Inr (Some 7)),
      isCanceled = (\<lambda>c e. True),
      captureProvenance = (\<lambda>c v. (Some 1, None)),
      releaseResult =
        (\<lambda>c log r. if r = 3 then Some (Errorf ''release failed'' []) else None)\<rparr>"

text \<open>The proxy after the canceled call, and after the retry that succeeded.\<close>

definition proxy_canceled :: resultProxy where
  "proxy_canceled = snd (Result env_retry ctx_canceled NoRelease (newResultProxy rq0))"

definition proxy_retried :: resultProxy where
  "proxy_retried = snd (Result env_retry ctx_live NoRelease proxy_canceled)"

text \<open>
  A builder that fails, not canceled, with an execution error exposing the partial results
  3 and 4 at the graph node \<open>sha256:aa\<close>.
\<close>

definition err_exec :: error where
  "err_exec = VertexError ''sha256:aa'' (ExecError [3, 4] False (Errorf ''exit code 1'' []))"

definition env_fail :: env where
  "env_fail =
     \<lparr>build = (\<lambda>n c. Inl err_exec),
      isCanceled = (\<lambda>c e. False),
      captureProvenance = (\<lambda>c v. (None, None)),
      releaseResult = (\<lambda>c log r. None)\<rparr>"

text \<open>
  An empty bridge, a hash that maps every entry to 42, a local cache source and a registry
  cache source with a ref.
\<close>

definition bridge0 :: llbBridge where
  "bridge0 =
     \<lparr>cms = Map.empty, lcms = [], executorOnce = False, executorErr = None, executor = None,
      worker_resolved = 0, executor_calls = []\<rparr>"

definition hash42 :: "CacheOptionsEntry \<Rightarrow> error + nat" where
  "hash42 im = Inr 42"

definition im_local :: CacheOptionsEntry where
  "im_local = \<lparr>im_Type = ''local'', im_Attrs = [''src'' \<mapsto> ''/tmp/cache'']\<rparr>"

definition im_registry :: CacheOptionsEntry where
  "im_registry = \<lparr>im_Type = ''registry'', im_Attrs = [''ref'' \<mapsto> ''example.com/cache'']\<rparr>"

text \<open>A lazy cache manager whose resolution has failed, and one that resolved to no manager.\<close>

definition lcm_failed :: lazyCacheManager where
  "lcm_failed =
     resolution_finished (None, Some (Errorf ''unknown cache importer: %s'' []))
       (newLazyCacheManager ''local:42'' im_local)"

definition lcm_empty :: lazyCacheManager where
  "lcm_empty = resolution_finished (None, None) (newLazyCacheManager ''local:42'' im_local)"

text \<open>
  A request whose source map records two locations, both in the file \<open>Dockerfile\<close>, for the
  graph node \<open>sha256:aa\<close>, and an error that identifies this node.
\<close>

definition rq_mapped :: SolveRequest where
  "rq_mapped =
     \<lparr>Definition = Some \<lparr>def_Source = Some
        \<lparr>Locations = [''sha256:aa'' \<mapsto> [Location 0 [((1, 0), (1, 10))], Location 0 [((3, 0), (3, 5))]]],
         Infos = [''Dockerfile'']\<rparr>\<rparr>\<rparr>"

definition err_vertex :: error where
  "err_vertex = VertexError ''sha256:aa'' (Errorf ''exit code 1'' [])"

definition err_wrapped :: error where
  "err_wrapped =
     ErrorSource (Source ''Dockerfile'' [((3, 0), (3, 5))])
       (ErrorSource (Source ''Dockerfile'' [((1, 0), (1, 10))]) err_vertex)"

text \<open>
  A build that was granted no entitlement, with a worker whose executor is 5, and a process
  that asks for the host network.
\<close>

definition benv_nogrant :: "Grants bridge_env" where
  "benv_nogrant =
     \<lparr>loadEntitlements = Inr \<lparr>allow_NetworkHost = False, allow_SecurityInsecure = False\<rparr>,
      ent_Check = entitlements_Check,
      resolveWorker = Inr 1,
      worker_Executor = (\<lambda>w. Some 5),
      executor_Run = (\<lambda>ex i r ms p. (Some 9, None)),
      executor_Exec = (\<lambda>ex i p. None)\<rparr>"

definition proc_host :: ProcessInfo where
  "proc_host = \<lparr>meta_NetMode = NetMode_HOST, meta_SecurityMode = SecurityMode_SANDBOX\<rparr>"

definition proc_plain :: ProcessInfo where
  "proc_plain = \<lparr>meta_NetMode = NetMode_UNSET, meta_SecurityMode = SecurityMode_SANDBOX\<rparr>"


section \<open>Properties\<close>

subsection \<open>Auxiliary facts about the result proxy\<close>

lemmas proxy_defs =
  Result_def Result_fn_def store_result_def canceled_def loadResult_def before_eval_def
  after_eval_def Release_def wrapError_def nonnil_def Let_def

lemma wrapError_nil: "wrapError rq None = Returns None"
  by (simp add: wrapError_def)

lemma wrapError_Errorf: "wrapError rq (Some (Errorf f args)) = Returns (Some (Errorf f args))"
  by (simp add: wrapError_def)

lemma wrapError_nil_iff: "wrapError rq err = Returns None \<longleftrightarrow> err = None"
  by (auto simp: wrapError_def split: option.splits outcome.splits)

lemma release_errResults_log:
  "snd (release_errResults E c rs (err, log)) = log @ rs"
  by (induction rs arbitrary: err log) (simp_all add: Let_def)

lemma Release_keeps:
  "rp_v (snd (Release E c rp)) = rp_v rp"
  "rp_err (snd (Release E c rp)) = rp_err rp"
  "rp_req (snd (Release E c rp)) = rp_req rp"
  "evals (snd (Release E c rp)) = evals rp"
  "rp_errResults (snd (Release E c rp)) = rp_errResults rp"
  "rp_provenance (snd (Release E c rp)) = rp_provenance rp"
  by (simp_all add: Release_def Let_def split: prod.splits option.splits)

lemma Release_log:
  "released_log (snd (Release E c rp)) =
     released_log rp @ rp_errResults rp @ (case rp_v rp of None \<Rightarrow> [] | Some v \<Rightarrow> [v])"
proof -
  obtain err log where r: "release_errResults E c (rp_errResults rp) (None, released_log rp) = (err, log)"
    by (cases "release_errResults E c (rp_errResults rp) (None, released_log rp)")
  have "log = released_log rp @ rp_errResults rp"
    using release_errResults_log [of E c "rp_errResults rp" None "released_log rp"] r by simp
  then show ?thesis
    using r by (simp add: Release_def Let_def split: option.splits)
qed

lemma Release_without_value:
  "rp_v rp = None \<Longrightarrow> rp_released (snd (Release E c rp))"
  by (simp add: Release_def split: prod.splits)

lemma Release_no_failure:
  assumes "fst (release_errResults E c (rp_errResults rp) (None, released_log rp)) = None"
  shows "fst (Release E c rp) = None \<and> rp_released (snd (Release E c rp))"
proof (cases "release_errResults E c (rp_errResults rp) (None, released_log rp)")
  case (Pair err log)
  with assms have "err = None" by simp
  with Pair show ?thesis
    by (cases "rp_v rp") (simp_all add: Release_def Let_def nonnil_def)
qed

lemma Release_without_value_error:
  assumes "rp_v rp = None"
  shows "fst (Release E c rp) =
    fst (release_errResults E c (rp_errResults rp) (None, released_log rp))"
  using assms by (simp add: Release_def split: prod.splits)

lemma loadResult_keeps:
  "rp_v (snd (loadResult E c rp)) = rp_v rp"
  "rp_err (snd (loadResult E c rp)) = rp_err rp"
  "rp_req (snd (loadResult E c rp)) = rp_req rp"
  "rp_released (snd (loadResult E c rp)) = rp_released rp"
  "released_log (snd (loadResult E c rp)) = released_log rp"
  "evals (snd (loadResult E c rp)) = Suc (evals rp)"
  by (simp_all add: loadResult_def Let_def split: sum.splits option.splits)

lemma loadResult_value:
  "loadResult E c rp = ((v, Some e), rp1) \<Longrightarrow> v = None"
  by (auto simp: loadResult_def Let_def split: sum.splits option.splits)

lemma store_result_evals: "evals (snd (store_result E c v err rp)) = evals rp"
  by (simp add: store_result_def Let_def split: option.splits prod.splits)

lemma Result_fn_success:
  assumes "Result_fn E c w rp = (Returns (Some v, None), rp')"
  shows "\<not> rp_released rp' \<and> rp_v rp' = Some v \<and> rp_err rp' = None"
  using assms
  by (auto simp: Result_fn_def store_result_def canceled_def Let_def nonnil_def
      split: if_splits prod.splits option.splits)

lemma Result_success:
  assumes "Result E c w rp = (Returns (Some v, None), rp')"
  shows "\<not> rp_released rp' \<and> rp_v rp' = Some v \<and> rp_err rp' = None"
proof -
  from assms obtain err where fn: "Result_fn E c w rp = (Returns (Some v, err), rp')"
    and wr: "wrapError (rp_req rp') err = Returns None"
    by (auto simp: Result_def split: prod.splits outcome.splits)
  from wr have "err = None" by (simp add: wrapError_nil_iff)
  with fn show ?thesis using Result_fn_success by blast
qed

lemma Result_memo:
  assumes "\<not> rp_released rp" and "rp_v rp = Some v" and "rp_err rp = None"
  shows "Result E c w rp = (Returns (Some v, None), rp)"
  using assms by (simp add: Result_def Result_fn_def nonnil_def wrapError_def)

lemma Result_calls_memo:
  assumes "\<not> rp_released rp" and "rp_v rp = Some v" and "rp_err rp = None"
  shows "Result_calls E cs rp = (replicate (length cs) (Returns (Some v, None)), rp)"
proof (induction cs)
  case Nil
  show ?case by simp
next
  case (Cons cw cs)
  obtain c w where cw: "cw = (c, w)" by (cases cw)
  show ?case using Cons assms by (simp add: cw Result_memo)
qed

lemma Result_evaluates:
  assumes "\<not> rp_released rp" and "rp_v rp = None" and "rp_err rp = None"
  shows "evals (snd (Result E c w rp)) = Suc (evals rp)"
proof -
  obtain v err rp1 where l: "loadResult E c (before_eval E w rp) = ((v, err), rp1)"
    by (metis prod.exhaust)
  have e0: "evals (before_eval E w rp) = evals rp"
    by (simp add: before_eval_def Release_keeps split: inflight.splits)
  have e1: "evals rp1 = Suc (evals rp)"
    using loadResult_keeps(6) [of E c "before_eval E w rp"] l e0 by simp
  have e2: "evals (after_eval E w rp1) = Suc (evals rp)"
    using e1 by (simp add: after_eval_def Release_keeps split: inflight.splits)
  have "evals (snd (Result_fn E c w rp)) = Suc (evals rp)"
    using assms l e2 by (simp add: Result_fn_def nonnil_def Let_def store_result_evals)
  moreover have "evals (snd (Result E c w rp)) = evals (snd (Result_fn E c w rp))"
    by (simp add: Result_def split: prod.splits outcome.splits)
  ultimately show ?thesis by simp
qed

lemma finalize_borrowed: "ExecError_finalize (set_OwnerBorrowed e) = []"
  by (induction e) simp_all

lemma count_list_distinct: "distinct xs \<Longrightarrow> x \<in> set xs \<Longrightarrow> count_list xs x = 1"
  by (induction xs) auto

lemma inflight_release_sets_flag:
  assumes "rp_v rp = None" and "w \<noteq> NoRelease"
    and "loadResult E c (before_eval E w rp) = (r, rp1)"
  shows "rp_released (after_eval E w rp1)"
proof (cases w)
  case NoRelease
  with assms(2) show ?thesis by simp
next
  case (ReleaseBefore c')
  have "rp_released (before_eval E w rp)"
    using assms(1) by (simp add: before_eval_def ReleaseBefore Release_without_value)
  then have "rp_released rp1"
    using loadResult_keeps(4) [of E c "before_eval E w rp"] assms(3) by simp
  then show ?thesis by (simp add: after_eval_def ReleaseBefore)
next
  case (ReleaseAfter c')
  have "rp_v (before_eval E w rp) = None"
    using assms(1) by (simp add: before_eval_def ReleaseAfter)
  then have "rp_v rp1 = None"
    using loadResult_keeps(1) [of E c "before_eval E w rp"] assms(3) by simp
  then show ?thesis by (simp add: after_eval_def ReleaseAfter Release_without_value)
qed

lemma no_memo_through_evaluation:
  assumes "rp_v rp = None" and "rp_err rp = None"
    and "loadResult E c (before_eval E w rp) = (r, rp1)"
  shows "rp_v (after_eval E w rp1) = None \<and> rp_err (after_eval E w rp1) = None"
proof -
  have b: "rp_v (before_eval E w rp) = None \<and> rp_err (before_eval E w rp) = None"
    using assms(1,2) by (simp add: before_eval_def Release_keeps split: inflight.splits)
  have "rp_v rp1 = None \<and> rp_err rp1 = None"
    using loadResult_keeps(1,2) [of E c "before_eval E w rp"] assms(3) b by simp
  then show ?thesis by (simp add: after_eval_def Release_keeps split: inflight.splits)
qed


subsection \<open>Auxiliary facts about the registry of cache managers\<close>

lemma cmKey_same:
  "im_Type a = im_Type b \<Longrightarrow> im_Attrs a = im_Attrs b \<Longrightarrow> cmKey hash (a::CacheOptionsEntry) = cmKey hash b"
  by (cases a, cases b) simp

lemma resolve_mono:
  "resolve_cacheImports hash ims acc b = (r, b') \<Longrightarrow> cms b k = Some a \<Longrightarrow> cms b' k = Some a"
proof (induction ims arbitrary: acc b)
  case Nil
  then show ?case by simp
next
  case (Cons im ims)
  show ?case
  proof (cases "cmKey hash im")
    case (Inl err)
    with Cons.prems show ?thesis by simp
  next
    case (Inr cmID)
    show ?thesis
    proof (cases "cms b cmID")
      case None
      let ?b1 = "b\<lparr>cms := (cms b)(cmID \<mapsto> length (lcms b)),
                        lcms := lcms b @ [newLazyCacheManager cmID im]\<rparr>"
      have r: "resolve_cacheImports hash ims (acc @ [length (lcms b)]) ?b1 = (r, b')"
        using Cons.prems(1) Inr None by (simp add: Let_def)
      have "cms ?b1 k = Some a" using Cons.prems(2) None by auto
      then show ?thesis using Cons.IH [OF r] by simp
    next
      case (Some prevCm)
      then show ?thesis using Cons Inr by simp
    qed
  qed
qed

lemma resolve_handles:
  "resolve_cacheImports hash ims acc b = (Inr hs, b') \<Longrightarrow>
     \<exists>hs'. hs = acc @ hs' \<and> length hs' = length ims \<and>
       (\<forall>i<length ims. \<exists>k. cmKey hash (ims ! i) = Inr k \<and> cms b' k = Some (hs' ! i))"
proof (induction ims arbitrary: acc b)
  case Nil
  then show ?case by simp
next
  case (Cons im ims)
  show ?case
  proof (cases "cmKey hash im")
    case (Inl err)
    with Cons.prems show ?thesis by simp
  next
    case (Inr cmID)
    show ?thesis
    proof (cases "cms b cmID")
      case None
      let ?a = "length (lcms b)"
      let ?b1 = "b\<lparr>cms := (cms b)(cmID \<mapsto> ?a),
                        lcms := lcms b @ [newLazyCacheManager cmID im]\<rparr>"
      have r: "resolve_cacheImports hash ims (acc @ [?a]) ?b1 = (Inr hs, b')"
        using Cons.prems(1) Inr None by (simp add: Let_def)
      from Cons.IH [OF r] obtain hs' where h: "hs = (acc @ [?a]) @ hs'" "length hs' = length ims"
        "\<forall>i<length ims. \<exists>k. cmKey hash (ims ! i) = Inr k \<and> cms b' k = Some (hs' ! i)"
        by blast
      have k0: "cms b' cmID = Some ?a"
        using resolve_mono [OF r, of cmID ?a] by simp
      have "\<forall>i<length (im # ims). \<exists>k. cmKey hash ((im # ims) ! i) = Inr k \<and> cms b' k = Some ((?a # hs') ! i)"
        using h(3) k0 Inr by (auto simp: nth_Cons split: nat.splits)
      then show ?thesis using h(1,2) by (intro exI [of _ "?a # hs'"]) simp
    next
      case (Some prevCm)
      have r: "resolve_cacheImports hash ims (acc @ [prevCm]) b = (Inr hs, b')"
        using Cons.prems(1) Inr Some by simp
      from Cons.IH [OF r] obtain hs' where h: "hs = (acc @ [prevCm]) @ hs'" "length hs' = length ims"
        "\<forall>i<length ims. \<exists>k. cmKey hash (ims ! i) = Inr k \<and> cms b' k = Some (hs' ! i)"
        by blast
      have k0: "cms b' cmID = Some prevCm"
        using resolve_mono [OF r Some] .
      have "\<forall>i<length (im # ims). \<exists>k. cmKey hash ((im # ims) ! i) = Inr k \<and> cms b' k = Some ((prevCm # hs') ! i)"
        using h(3) k0 Inr by (auto simp: nth_Cons split: nat.splits)
      then show ?thesis using h(1,2) by (intro exI [of _ "prevCm # hs'"]) simp
    qed
  qed
qed

lemma resolve_constructs:
  "resolve_cacheImports hash ims acc b = (r, b') \<Longrightarrow>
     \<exists>new. lcms b' = lcms b @ new \<and> distinct (map lcm_id new) \<and>
       (\<forall>i<length new. cms b (lcm_id (new ! i)) = None \<and>
                        cms b' (lcm_id (new ! i)) = Some (length (lcms b) + i))"
proof (induction ims arbitrary: acc b)
  case Nil
  then show ?case by simp
next
  case (Cons im ims)
  show ?case
  proof (cases "cmKey hash im")
    case (Inl err)
    with Cons.prems show ?thesis by simp
  next
    case (Inr cmID)
    show ?thesis
    proof (cases "cms b cmID")
      case None
      let ?a = "length (lcms b)"
      let ?m = "newLazyCacheManager cmID im"
      let ?b1 = "b\<lparr>cms := (cms b)(cmID \<mapsto> ?a), lcms := lcms b @ [?m]\<rparr>"
      have r: "resolve_cacheImports hash ims (acc @ [?a]) ?b1 = (r, b')"
        using Cons.prems(1) Inr None by (simp add: Let_def)
      from Cons.IH [OF r] obtain new where n: "lcms b' = lcms ?b1 @ new" "distinct (map lcm_id new)"
        "\<forall>i<length new. cms ?b1 (lcm_id (new ! i)) = None \<and>
                        cms b' (lcm_id (new ! i)) = Some (length (lcms ?b1) + i)"
        by blast
      have k0: "cms b' cmID = Some ?a"
        using resolve_mono [OF r, of cmID ?a] by simp
      have id: "lcm_id ?m = cmID" by (simp add: newLazyCacheManager_def)
      have notin: "cmID \<notin> set (map lcm_id new)"
      proof
        assume "cmID \<in> set (map lcm_id new)"
        then obtain i where "i < length new" "lcm_id (new ! i) = cmID"
          by (auto simp: in_set_conv_nth)
        with n(3) show False by auto
      qed
      have old: "\<forall>i<length new. cms b (lcm_id (new ! i)) = None"
        using n(3) by (auto split: if_splits)
      have "lcms b' = lcms b @ (?m # new)" using n(1) by simp
      moreover have "distinct (map lcm_id (?m # new))" using n(2) notin id by simp
      moreover have "\<forall>i<length (?m # new). cms b (lcm_id ((?m # new) ! i)) = None \<and>
                        cms b' (lcm_id ((?m # new) ! i)) = Some (length (lcms b) + i)"
        using n(3) old k0 None id by (auto simp: nth_Cons split: nat.splits)
      ultimately show ?thesis by blast
    next
      case (Some prevCm)
      then show ?thesis using Cons Inr by simp
    qed
  qed
qed


subsection \<open>Auxiliary facts about wrapError\<close>

lemma attach_Returns:
  "attach infos locs e = Returns e' \<Longrightarrow>
     e' = attached infos locs e \<and> list_all (in_range infos) locs"
  by (induction locs arbitrary: e) (auto simp: in_range_def split: if_splits)

lemma attach_in_range:
  "list_all (in_range infos) locs \<Longrightarrow> attach infos locs e = Returns (attached infos locs e)"
  by (induction locs arbitrary: e) (auto simp: in_range_def)

lemma as_VertexError_attached: "as_VertexError (attached infos locs e) = as_VertexError e"
  by (induction locs arbitrary: e) simp_all

lemma annotations_attached:
  "annotations (attached infos locs e) = annotations e @ map (source_of infos) locs"
  by (induction locs arbitrary: e) simp_all


subsection \<open>Memoization of a successful result\<close>

text \<open>
  Claim C1. After a \<open>Result\<close> call has returned a value with the nil error, every later
  \<open>Result\<close> call on that proxy, whatever its context, returns the same value and the nil
  error and leaves the proxy as it was: the counter \<open>evals\<close> stays, so the underlying
  evaluation is not invoked again. This holds for one further call and for any run of
  further calls.
\<close>

theorem Result_memoization:
  assumes "Result E c w rp = (Returns (Some v, None), rp')"
  shows "Result E c' w' rp' = (Returns (Some v, None), rp') \<and>
         Result_calls E cs rp' = (replicate (length cs) (Returns (Some v, None)), rp') \<and>
         evals (snd (Result_calls E cs rp')) = evals rp'"
proof -
  have m: "\<not> rp_released rp' \<and> rp_v rp' = Some v \<and> rp_err rp' = None"
    using assms by (rule Result_success)
  have one: "Result E c' w' rp' = (Returns (Some v, None), rp')"
    using m by (simp add: Result_memo)
  have many: "Result_calls E cs rp' = (replicate (length cs) (Returns (Some v, None)), rp')"
    using m by (simp add: Result_calls_memo)
  show ?thesis using one many by simp
qed

theorem Result_memoization_witness:
  "Result env_ok ctx_live NoRelease (newResultProxy rq0) =
     (Returns (Some 7, None),
      (newResultProxy rq0)\<lparr>rp_v := Some 7, rp_provenance := Some 1, evals := 1\<rparr>) \<and>
   Result env_ok ctx_canceled NoRelease
      ((newResultProxy rq0)\<lparr>rp_v := Some 7, rp_provenance := Some 1, evals := 1\<rparr>) =
     (Returns (Some 7, None),
      (newResultProxy rq0)\<lparr>rp_v := Some 7, rp_provenance := Some 1, evals := 1\<rparr>)"
proof -
  note example_defs =
    rq0_def ctx_live_def ctx_canceled_def env_ok_def newResultProxy_def
  have h: "Result env_ok ctx_live NoRelease (newResultProxy rq0) =
     (Returns (Some 7, None),
      (newResultProxy rq0)\<lparr>rp_v := Some 7, rp_provenance := Some 1, evals := 1\<rparr>)"
    by (simp add: example_defs proxy_defs)
  show ?thesis
    using h Result_memoization [OF h, of ctx_canceled NoRelease "[]"] by simp
qed


subsection \<open>Result on a released proxy\<close>

text \<open>
  Claim C2, as stated, fails twice. After a \<open>Release\<close> that has completed, \<open>Result\<close> can
  still return the memoized value (the proxy of claim C5, where \<open>Release\<close> returns without
  setting \<open>released\<close>). And when the proxy is released during an evaluation that is then
  classified as canceled, \<open>Result\<close> returns the cancellation error: the test for
  cancellation comes before the test of \<open>released\<close>.
\<close>

theorem Result_after_Release_counterexample:
  "fst (Result env_retry ctx_live NoRelease (snd (Release env_retry ctx_live proxy_retried))) =
     Returns (Some 7, None) \<and>
   fst (Result env_retry ctx_canceled (ReleaseAfter ctx_live) (newResultProxy rq0)) =
     Returns (None, Some (ExecError [3] True (Errorf ''context canceled'' []))) \<and>
   rp_released (snd (Result env_retry ctx_canceled (ReleaseAfter ctx_live) (newResultProxy rq0)))"
proof -
  note example_defs =
    rq0_def ctx_live_def ctx_canceled_def err_canceled_def env_retry_def
    proxy_canceled_def proxy_retried_def newResultProxy_def
  have p: "proxy_retried =
      (newResultProxy rq0)\<lparr>rp_errResults := [3], evals := 2, rp_v := Some 7,
        rp_provenance := Some 1\<rparr>"
    by (simp add: example_defs proxy_defs)
  have a: "fst (Result env_retry ctx_live NoRelease
      (snd (Release env_retry ctx_live proxy_retried))) = Returns (Some 7, None)"
    by (simp add: p) (simp add: example_defs proxy_defs)
  have b: "Result env_retry ctx_canceled (ReleaseAfter ctx_live) (newResultProxy rq0) =
      (Returns (None, Some (ExecError [3] True (Errorf ''context canceled'' []))),
       (newResultProxy rq0)\<lparr>rp_released := True, rp_errResults := [3], released_log := [3],
          evals := 1\<rparr>)"
    by (simp add: example_defs proxy_defs)
  show ?thesis using a b by simp
qed

text \<open>
  Claim C2, amended. On a proxy whose \<open>released\<close> flag is set, every \<open>Result\<close> call fails
  with the error "accessing released result" and leaves the proxy as it was, so that the
  evaluation is not invoked. When a \<open>Release\<close> runs while the evaluation of a \<open>Result\<close>
  call is in flight and the evaluation is not classified as canceled, the call fails with
  the error "evaluating released result", a freshly computed result is released at once
  (it is appended to the log of released results), and nothing is memoized.
\<close>

theorem Result_on_released:
  "(rp_released rp \<longrightarrow>
      Result E c w rp = (Returns (None, Some (Errorf ''accessing released result'' [])), rp)) \<and>
   (\<not> rp_released rp \<and> rp_v rp = None \<and> rp_err rp = None \<and> w \<noteq> NoRelease \<and>
    loadResult E c (before_eval E w rp) = ((v, err), rp1) \<and> \<not> canceled E c err
    \<longrightarrow>
      Result E c w rp =
        (Returns (None, Some (Errorf ''evaluating released result'' [])),
         (after_eval E w rp1)
           \<lparr>released_log :=
              released_log (after_eval E w rp1) @ (case v of None \<Rightarrow> [] | Some r \<Rightarrow> [r])\<rparr>) \<and>
      rp_released (after_eval E w rp1) \<and>
      rp_v (after_eval E w rp1) = None \<and> rp_err (after_eval E w rp1) = None)"
proof -
  have first: "Result E c w rp =
      (Returns (None, Some (Errorf ''accessing released result'' [])), rp)"
    if "rp_released rp"
    using that by (simp add: Result_def Result_fn_def wrapError_Errorf)
  have second: "Result E c w rp =
        (Returns (None, Some (Errorf ''evaluating released result'' [])),
         (after_eval E w rp1)
           \<lparr>released_log :=
              released_log (after_eval E w rp1) @ (case v of None \<Rightarrow> [] | Some r \<Rightarrow> [r])\<rparr>) \<and>
      rp_released (after_eval E w rp1) \<and>
      rp_v (after_eval E w rp1) = None \<and> rp_err (after_eval E w rp1) = None"
    if n: "\<not> rp_released rp" and nv: "rp_v rp = None" and ne: "rp_err rp = None"
      and w: "w \<noteq> NoRelease"
      and l: "loadResult E c (before_eval E w rp) = ((v, err), rp1)"
      and nc: "\<not> canceled E c err"
  proof -
    have fl: "rp_released (after_eval E w rp1)"
      using nv w l by (rule inflight_release_sets_flag)
    have nm: "rp_v (after_eval E w rp1) = None \<and> rp_err (after_eval E w rp1) = None"
      using nv ne l by (rule no_memo_through_evaluation)
    have st: "store_result E c v err (after_eval E w rp1) =
        (Returns (None, Some (Errorf ''evaluating released result'' [])),
         (after_eval E w rp1)
           \<lparr>released_log :=
              released_log (after_eval E w rp1) @ (case v of None \<Rightarrow> [] | Some r \<Rightarrow> [r])\<rparr>)"
      using fl by (cases v) (simp_all add: store_result_def)
    have fn: "Result_fn E c w rp = store_result E c v err (after_eval E w rp1)"
      using n nv ne l nc by (simp add: Result_fn_def nonnil_def Let_def)
    have "Result E c w rp =
        (Returns (None, Some (Errorf ''evaluating released result'' [])),
         (after_eval E w rp1)
           \<lparr>released_log :=
              released_log (after_eval E w rp1) @ (case v of None \<Rightarrow> [] | Some r \<Rightarrow> [r])\<rparr>)"
      by (simp add: Result_def fn st wrapError_Errorf)
    then show ?thesis using fl nm by simp
  qed
  show ?thesis using first second by blast
qed

theorem Result_on_released_witness:
  "Result env_ok ctx_live NoRelease ((newResultProxy rq0)\<lparr>rp_released := True\<rparr>) =
     (Returns (None, Some (Errorf ''accessing released result'' [])),
      (newResultProxy rq0)\<lparr>rp_released := True\<rparr>) \<and>
   Result env_ok ctx_live (ReleaseAfter ctx_live) (newResultProxy rq0) =
     (Returns (None, Some (Errorf ''evaluating released result'' [])),
      (newResultProxy rq0)\<lparr>rp_released := True, released_log := [7], evals := 1\<rparr>)"
proof -
  note example_defs =
    rq0_def ctx_live_def env_ok_def newResultProxy_def
  let ?p = "newResultProxy rq0"
  have l: "loadResult env_ok ctx_live (before_eval env_ok (ReleaseAfter ctx_live) ?p) =
      ((Some 7, None), ?p\<lparr>evals := 1\<rparr>)"
    by (simp add: example_defs proxy_defs)
  have a: "after_eval env_ok (ReleaseAfter ctx_live) (?p\<lparr>evals := 1\<rparr>) =
      ?p\<lparr>rp_released := True, evals := 1\<rparr>"
    by (simp add: example_defs proxy_defs)
  have nc: "\<not> canceled env_ok ctx_live None"
    by (simp add: canceled_def)
  have i: "\<not> rp_released ?p \<and> rp_v ?p = None \<and> rp_err ?p = None"
    by (simp add: example_defs)
  show ?thesis
    using Result_on_released [where rp = "?p\<lparr>rp_released := True\<rparr>" and E = env_ok
        and c = ctx_live and w = NoRelease]
      Result_on_released [where rp = ?p and E = env_ok and c = ctx_live
        and w = "ReleaseAfter ctx_live" and v = "Some 7" and err = None
        and ?rp1.0 = "?p\<lparr>evals := 1\<rparr>"] l nc i
    by (simp add: example_defs proxy_defs)
qed


subsection \<open>Partial results of an execution error\<close>

text \<open>
  Claim C3. When the evaluation fails with a structured execution error that exposes the
  partial results \<open>refs\<close>, \<open>loadResult\<close> appends them to \<open>rp.errResults\<close> and sets the
  error's \<open>OwnerBorrowed\<close> flag, so that the error's own finalizer releases nothing. One
  \<open>Release\<close> call then releases, in order, the retained results and the memoized value
  and nothing else. Hence, when the exposed results are distinct and fresh, each of them is
  released exactly once, counting the releases of the proxy and of the finalizer together.
\<close>

theorem partial_results_released_once:
  assumes "build E (evals rp) c = Inl e" and "as_ExecError e = Some refs"
  shows "\<exists>e' rp1.
           loadResult E c rp = ((None, Some e'), rp1) \<and>
           e' = set_OwnerBorrowed e \<and>
           rp_errResults rp1 = rp_errResults rp @ refs \<and>
           ExecError_finalize e' = [] \<and>
           released_log (snd (Release E c' rp1)) =
             released_log rp @ rp_errResults rp @ refs @
               (case rp_v rp of None \<Rightarrow> [] | Some x \<Rightarrow> [x]) \<and>
           (distinct refs \<and>
            set refs \<inter> (set (released_log rp) \<union> set (rp_errResults rp) \<union> set_option (rp_v rp)) = {}
            \<longrightarrow> (\<forall>r. r \<in> set refs \<longrightarrow>
                   count_list (released_log (snd (Release E c' rp1)) @ ExecError_finalize e') r = 1))"
proof -
  define rp1 where "rp1 = snd (loadResult E c rp)"
  have l: "loadResult E c rp = ((None, Some (set_OwnerBorrowed e)), rp1)"
    using assms by (simp add: rp1_def loadResult_def Let_def)
  have er: "rp_errResults rp1 = rp_errResults rp @ refs"
    using assms by (simp add: rp1_def loadResult_def Let_def)
  have v: "rp_v rp1 = rp_v rp" and lg: "released_log rp1 = released_log rp"
    by (simp_all add: rp1_def loadResult_keeps)
  have rel: "released_log (snd (Release E c' rp1)) =
      released_log rp @ rp_errResults rp @ refs @ (case rp_v rp of None \<Rightarrow> [] | Some x \<Rightarrow> [x])"
    by (simp add: Release_log er v lg)
  have once: "count_list (released_log (snd (Release E c' rp1)) @
                ExecError_finalize (set_OwnerBorrowed e)) r = 1"
    if d: "distinct refs"
      and f: "set refs \<inter> (set (released_log rp) \<union> set (rp_errResults rp) \<union> set_option (rp_v rp)) = {}"
      and r: "r \<in> set refs" for r
  proof -
    have n1: "r \<notin> set (released_log rp)" and n2: "r \<notin> set (rp_errResults rp)"
      and n3: "r \<notin> set_option (rp_v rp)"
      using f r by auto
    have c3: "count_list (case rp_v rp of None \<Rightarrow> [] | Some x \<Rightarrow> [x]) r = 0"
      using n3 by (cases "rp_v rp") auto
    have "count_list refs r = 1" using d r by (rule count_list_distinct)
    then show ?thesis using n1 n2 c3 by (simp add: rel finalize_borrowed)
  qed
  show ?thesis
    using l er rel once by (simp add: finalize_borrowed)
qed

theorem partial_results_released_once_witness:
  "fst (loadResult env_fail ctx_live (newResultProxy rq0)) =
     (None, Some (VertexError ''sha256:aa'' (ExecError [3, 4] True (Errorf ''exit code 1'' [])))) \<and>
   released_log (snd (Release env_fail ctx_live
     (snd (loadResult env_fail ctx_live (newResultProxy rq0))))) = [3, 4]"
proof -
  note example_defs =
    rq0_def ctx_live_def err_exec_def env_fail_def newResultProxy_def
  have b: "build env_fail (evals (newResultProxy rq0)) ctx_live = Inl err_exec"
    by (simp add: example_defs)
  have x: "as_ExecError err_exec = Some [3, 4]"
    by (simp add: example_defs)
  show ?thesis
    using partial_results_released_once [OF b x, of ctx_live]
    by (auto simp: example_defs)
qed


subsection \<open>A canceled evaluation is not memoized\<close>

text \<open>
  Claim C4. When the evaluation of a \<open>Result\<close> call fails and the failure is classified as
  a cancellation of the caller's context, nothing is memoized: \<open>rp.v\<close> and \<open>rp.err\<close> stay
  nil. A later \<open>Result\<close> call on the proxy, if the proxy has not been released meanwhile,
  invokes the evaluation again (\<open>evals\<close> grows by one), and when that evaluation succeeds
  the call returns its value and not the canceled outcome.
\<close>

theorem canceled_not_memoized:
  assumes "\<not> rp_released rp" and "rp_v rp = None" and "rp_err rp = None"
    and "loadResult E c (before_eval E w rp) = ((v, err), rp1)"
    and "canceled E c err"
    and "Result E c w rp = (r, rp')"
  shows "rp_v rp' = None \<and> rp_err rp' = None \<and> evals rp' = Suc (evals rp) \<and>
         (\<not> rp_released rp' \<longrightarrow> evals (snd (Result E c2 w2 rp')) = Suc (evals rp')) \<and>
         (\<not> rp_released rp' \<and> build E (evals rp') c2 = Inr (Some x) \<and>
            captureProvenance E c2 (Some x) = (cap, None)
          \<longrightarrow> fst (Result E c2 NoRelease rp') = Returns (Some x, None))"
proof -
  have fn: "Result_fn E c w rp = (Returns (v, err), after_eval E w rp1)"
    using assms(1-5) by (simp add: Result_fn_def nonnil_def Let_def)
  have rp': "rp' = after_eval E w rp1"
    using fn assms(6) by (auto simp: Result_def split: outcome.splits)
  have nomemo: "rp_v rp' = None \<and> rp_err rp' = None"
    using no_memo_through_evaluation [OF assms(2,3,4)] rp' by simp
  have ev: "evals rp' = Suc (evals rp)"
    using Result_evaluates [OF assms(1-3), of E c w] assms(6) by simp
  have again: "\<not> rp_released rp' \<longrightarrow> evals (snd (Result E c2 w2 rp')) = Suc (evals rp')"
    using nomemo by (simp add: Result_evaluates)
  have fresh: "fst (Result E c2 NoRelease rp') = Returns (Some x, None)"
    if "\<not> rp_released rp'" and "build E (evals rp') c2 = Inr (Some x)"
      and "captureProvenance E c2 (Some x) = (cap, None)"
    using that nomemo by (simp add: proxy_defs)
  show ?thesis using nomemo ev again fresh by blast
qed

theorem canceled_not_memoized_witness:
  "rp_v proxy_canceled = None \<and> rp_err proxy_canceled = None \<and>
   evals proxy_canceled = 1 \<and>
   evals (snd (Result env_retry ctx_live NoRelease proxy_canceled)) = 2 \<and>
   fst (Result env_retry ctx_live NoRelease proxy_canceled) = Returns (Some 7, None)"
proof -
  note example_defs =
    rq0_def ctx_live_def ctx_canceled_def err_canceled_def env_retry_def
    proxy_canceled_def newResultProxy_def
  let ?p = "newResultProxy rq0"
  let ?p1 = "?p\<lparr>rp_errResults := [3], evals := 1\<rparr>"
  let ?e = "ExecError [3] True (Errorf ''context canceled'' [])"
  have a1: "\<not> rp_released ?p" and a2: "rp_v ?p = None" and a3: "rp_err ?p = None"
    by (simp_all add: example_defs)
  have a4: "loadResult env_retry ctx_canceled (before_eval env_retry NoRelease ?p) =
              ((None, Some ?e), ?p1)"
    by (simp add: example_defs proxy_defs)
  have a5: "canceled env_retry ctx_canceled (Some ?e)"
    by (simp add: example_defs canceled_def)
  have a6: "Result env_retry ctx_canceled NoRelease ?p = (Returns (None, Some ?e), proxy_canceled)"
    by (simp add: example_defs proxy_defs)
  have p: "proxy_canceled = ?p1"
    by (simp add: example_defs proxy_defs)
  have b: "build env_retry (evals proxy_canceled) ctx_live = Inr (Some 7)"
    by (simp add: p) (simp add: example_defs)
  have cp: "captureProvenance env_retry ctx_live (Some 7) = (Some 1, None)"
    by (simp add: example_defs)
  have nr: "\<not> rp_released proxy_canceled"
    by (simp add: p) (simp add: example_defs)
  show ?thesis
    using canceled_not_memoized [OF a1 a2 a3 a4 a5 a6, of ctx_live NoRelease 7 "Some 1"]
      b cp nr by (simp add: newResultProxy_def)
qed


subsection \<open>Release when a partial result fails to release\<close>

text \<open>
  Claim C5 says that \<open>Release\<close> returns the last error met while releasing the retained
  partial results and that the proxy is marked released when it completes. The code tests
  \<open>err\<close> where it means \<open>rerr\<close> after releasing the memoized value: with a retained result
  whose release fails and a memoized value, it returns the outcome of releasing the value
  and leaves \<open>released\<close> false. The proxy below is reached from a new proxy by a canceled
  call (which retains result 3) and a successful retry (which memoizes result 7).
  Releasing result 3 fails, yet \<open>Release\<close> returns nil, the flag stays false, and the
  next \<open>Result\<close> call hands out the released value 7.
\<close>

theorem Release_returns_before_flag:
  "rp_errResults proxy_retried = [3] \<and> rp_v proxy_retried = Some 7 \<and>
   \<not> rp_released proxy_retried \<and>
   releaseResult env_retry ctx_live [] 3 = Some (Errorf ''release failed'' []) \<and>
   Release env_retry ctx_live proxy_retried =
     (None, proxy_retried\<lparr>released_log := [3, 7]\<rparr>) \<and>
   \<not> rp_released (snd (Release env_retry ctx_live proxy_retried)) \<and>
   fst (Result env_retry ctx_live NoRelease (snd (Release env_retry ctx_live proxy_retried))) =
     Returns (Some 7, None)"
proof -
  note example_defs =
    rq0_def ctx_live_def ctx_canceled_def err_canceled_def env_retry_def
    proxy_canceled_def proxy_retried_def newResultProxy_def
  have p: "proxy_retried =
      (newResultProxy rq0)\<lparr>rp_errResults := [3], evals := 2, rp_v := Some 7,
        rp_provenance := Some 1\<rparr>"
    by (simp add: example_defs proxy_defs)
  have r: "Release env_retry ctx_live proxy_retried =
      (None, proxy_retried\<lparr>released_log := [3, 7]\<rparr>)"
    by (simp add: p) (simp add: example_defs proxy_defs)
  have f: "releaseResult env_retry ctx_live [] 3 = Some (Errorf ''release failed'' [])"
    by (simp add: example_defs)
  have q: "fst (Result env_retry ctx_live NoRelease (proxy_retried\<lparr>released_log := [3, 7]\<rparr>)) =
      Returns (Some 7, None)"
    by (simp add: p) (simp add: example_defs proxy_defs)
  show ?thesis
    using r f q by (simp add: p newResultProxy_def)
qed


subsection \<open>One cache manager for each key\<close>

text \<open>
  Claim C6. The key of a cache source is its \<open>ref\<close> attribute when its type is
  "registry" and the ref is not empty, and otherwise the type, a colon and the structural
  hash in decimal. When the loop over the cache sources succeeds, it returns one manager
  for each source, the one registered under the source's key. Two sources of the same type
  and attributes get the same manager, whatever their positions in the list; a source whose
  key was registered before the call gets the manager registered then; the registry keeps
  every earlier entry; and the managers constructed during the call have pairwise distinct
  keys, none of them registered before, so that no key ever gets a second manager.
\<close>

theorem cache_managers_deduplicated:
  assumes "resolve_cacheImports hash ims [] b = (Inr hs, b')"
  shows "length hs = length ims \<and>
    (\<forall>i<length ims. \<exists>k. cmKey hash (ims ! i) = Inr k \<and> cms b' k = Some (hs ! i)) \<and>
    (\<forall>i<length ims. \<forall>j<length ims.
        im_Type (ims ! i) = im_Type (ims ! j) \<and> im_Attrs (ims ! i) = im_Attrs (ims ! j)
        \<longrightarrow> hs ! i = hs ! j) \<and>
    (\<forall>i<length ims. \<forall>k a. cmKey hash (ims ! i) = Inr k \<and> cms b k = Some a \<longrightarrow> hs ! i = a) \<and>
    (\<forall>k a. cms b k = Some a \<longrightarrow> cms b' k = Some a) \<and>
    (\<exists>new. lcms b' = lcms b @ new \<and> distinct (map lcm_id new) \<and>
       (\<forall>i<length new. cms b (lcm_id (new ! i)) = None \<and>
                        cms b' (lcm_id (new ! i)) = Some (length (lcms b) + i))) \<and>
    (im_Type im = ''registry'' \<and> attr im ''ref'' \<noteq> [] \<longrightarrow> cmKey hash im = Inr (attr im ''ref'')) \<and>
    (\<not> (im_Type im = ''registry'' \<and> attr im ''ref'' \<noteq> []) \<and> hash im = Inr n
       \<longrightarrow> cmKey hash im = Inr (im_Type im @ '':'' @ decimal n))"
proof -
  from resolve_handles [OF assms] have len: "length hs = length ims"
    and reg: "\<forall>i<length ims. \<exists>k. cmKey hash (ims ! i) = Inr k \<and> cms b' k = Some (hs ! i)"
    by auto
  have mono: "\<forall>k a. cms b k = Some a \<longrightarrow> cms b' k = Some a"
    using resolve_mono [OF assms] by blast
  have same: "hs ! i = hs ! j"
    if i: "i < length ims" and j: "j < length ims"
      and ty: "im_Type (ims ! i) = im_Type (ims ! j)"
      and at: "im_Attrs (ims ! i) = im_Attrs (ims ! j)" for i j
  proof -
    have e: "cmKey hash (ims ! i) = cmKey hash (ims ! j)"
      using ty at by (rule cmKey_same)
    obtain k where k: "cmKey hash (ims ! i) = Inr k" "cms b' k = Some (hs ! i)"
      using reg i by blast
    obtain k' where k': "cmKey hash (ims ! j) = Inr k'" "cms b' k' = Some (hs ! j)"
      using reg j by blast
    show ?thesis using e k k' by simp
  qed
  have reuse: "hs ! i = a"
    if i: "i < length ims" and ck: "cmKey hash (ims ! i) = Inr k" and old: "cms b k = Some a"
    for i k a
  proof -
    obtain k' where k': "cmKey hash (ims ! i) = Inr k'" "cms b' k' = Some (hs ! i)"
      using reg i by blast
    have "cms b' k = Some a" using mono old by blast
    then show ?thesis using k' ck by simp
  qed
  have key1: "im_Type im = ''registry'' \<and> attr im ''ref'' \<noteq> [] \<longrightarrow>
      cmKey hash im = Inr (attr im ''ref'')"
    by (simp add: cmKey_def)
  have key2: "\<not> (im_Type im = ''registry'' \<and> attr im ''ref'' \<noteq> []) \<and> hash im = Inr n \<longrightarrow>
      cmKey hash im = Inr (im_Type im @ '':'' @ decimal n)"
    by (auto simp: cmKey_def)
  show ?thesis
    using len reg same reuse mono resolve_constructs [OF assms] key1 key2 by blast
qed

theorem cache_managers_deduplicated_witness:
  "resolve_cacheImports hash42 [im_local, im_registry, im_local] [] bridge0 =
     (Inr [0, 1, 0],
      bridge0\<lparr>cms := [''local:42'' \<mapsto> 0, ''example.com/cache'' \<mapsto> 1],
               lcms := [newLazyCacheManager ''local:42'' im_local,
                        newLazyCacheManager ''example.com/cache'' im_registry]\<rparr>) \<and>
   [0, 1, 0 :: nat] ! 0 = [0, 1, 0] ! 2"
proof -
  have d: "decimal 42 = ''42''"
    by (simp add: decimal.simps)
  have k1: "cmKey hash42 im_local = Inr ''local:42''"
    by (simp add: cmKey_def im_local_def hash42_def attr_def d)
  have k2: "cmKey hash42 im_registry = Inr ''example.com/cache''"
    by (simp add: cmKey_def im_registry_def attr_def)
  have h: "resolve_cacheImports hash42 [im_local, im_registry, im_local] [] bridge0 =
     (Inr [0, 1, 0],
      bridge0\<lparr>cms := [''local:42'' \<mapsto> 0, ''example.com/cache'' \<mapsto> 1],
               lcms := [newLazyCacheManager ''local:42'' im_local,
                        newLazyCacheManager ''example.com/cache'' im_registry]\<rparr>)"
    by (simp add: k1 k2 bridge0_def Let_def)
  show ?thesis
    using h cache_managers_deduplicated [OF h] by simp
qed


subsection \<open>Operations on a lazy cache manager\<close>

text \<open>
  Claim C7, as stated, fails: \<open>Query\<close> and \<open>Records\<close> call \<open>wait\<close> and drop the error
  it returns. On a manager whose resolution failed they return an empty result and no
  error. (And on a manager that resolved to no manager, \<open>Load\<close> is not a no-op: it calls
  a method on the nil \<open>lcm.main\<close>.)
\<close>

theorem failed_manager_Query_counterexample:
  "wait lcm_failed = Some (Some (Errorf ''unknown cache importer: %s'' [])) \<and>
   Query lcm_failed ([1], 0, ''sha256:aa'', 0) = Some (Returns ([], None)) \<and>
   Records lcm_failed 1 = Some (Returns ([], None)) \<and>
   Load lcm_empty 2 = Some Panics"
  by (simp add: lcm_failed_def lcm_empty_def resolution_finished_def newLazyCacheManager_def
      wait_def Query_def Records_def Load_def)

text \<open>
  Claim C7, amended. Until the resolution has finished every operation blocks. On a lazy
  cache manager whose resolution finished with an error, \<open>Load\<close>, \<open>Save\<close> and
  \<open>ReleaseUnreferenced\<close> fail with that error, while \<open>Query\<close> and \<open>Records\<close> return an
  empty result and no error. On a manager whose resolution succeeded with no manager,
  \<open>Query\<close> and \<open>Records\<close> return an empty result and no error.
\<close>

theorem lazy_manager_operations:
  "Query (newLazyCacheManager k im) q = None \<and>
   Records (newLazyCacheManager k im) ck = None \<and>
   Load (newLazyCacheManager k im) r = None \<and>
   Save (newLazyCacheManager k im) a = None \<and>
   ReleaseUnreferenced (newLazyCacheManager k im) c = None \<and>
   Load (resolution_finished (cm, Some e) (newLazyCacheManager k im)) r =
     Some (Returns (None, Some e)) \<and>
   Save (resolution_finished (cm, Some e) (newLazyCacheManager k im)) a =
     Some (Returns (None, Some e)) \<and>
   ReleaseUnreferenced (resolution_finished (cm, Some e) (newLazyCacheManager k im)) c =
     Some (Returns (Some e)) \<and>
   Query (resolution_finished (cm, Some e) (newLazyCacheManager k im)) q =
     Some (Returns ([], None)) \<and>
   Records (resolution_finished (cm, Some e) (newLazyCacheManager k im)) ck =
     Some (Returns ([], None)) \<and>
   Query (resolution_finished (None, None) (newLazyCacheManager k im)) q =
     Some (Returns ([], None)) \<and>
   Records (resolution_finished (None, None) (newLazyCacheManager k im)) ck =
     Some (Returns ([], None))"
  by (simp add: resolution_finished_def newLazyCacheManager_def wait_def Query_def Records_def
      Load_def Save_def ReleaseUnreferenced_def)


subsection \<open>Entitlements are validated before the executor is acquired\<close>

text \<open>
  Claim C8. When the validation of the entitlements of a process fails, \<open>Run\<close> and \<open>Exec\<close>
  return that error and leave the bridge as it was: \<open>executorOnce\<close> has not fired,
  \<open>resolveWorker\<close> was not called and nothing was forwarded to the executor.
\<close>

theorem entitlements_before_executor:
  assumes "validateEntitlements B process = Some e"
  shows "Run B ident rootfs mounts process b = (Returns (None, Some e), b) \<and>
         Exec B ident process b = (Returns (Some e), b) \<and>
         executorOnce (snd (Run B ident rootfs mounts process b)) = executorOnce b \<and>
         worker_resolved (snd (Run B ident rootfs mounts process b)) = worker_resolved b \<and>
         executor_calls (snd (Run B ident rootfs mounts process b)) = executor_calls b \<and>
         executorOnce (snd (Exec B ident process b)) = executorOnce b \<and>
         worker_resolved (snd (Exec B ident process b)) = worker_resolved b \<and>
         executor_calls (snd (Exec B ident process b)) = executor_calls b"
  using assms by (simp add: Run_def Exec_def)

theorem entitlements_before_executor_witness:
  "validateEntitlements benv_nogrant proc_host = Some (Errorf ''network.host is not allowed'' []) \<and>
   Exec benv_nogrant ''step'' proc_host bridge0 =
     (Returns (Some (Errorf ''network.host is not allowed'' [])), bridge0) \<and>
   Run benv_nogrant ''step'' 0 [] proc_host bridge0 =
     (Returns (None, Some (Errorf ''network.host is not allowed'' [])), bridge0)"
proof -
  have v: "validateEntitlements benv_nogrant proc_host =
      Some (Errorf ''network.host is not allowed'' [])"
    by (simp add: validateEntitlements_def benv_nogrant_def proc_host_def entitlements_Check_def)
  show ?thesis
    using v entitlements_before_executor [OF v, of "''step''" 0 "[]" bridge0] by simp
qed


subsection \<open>wrapError\<close>

text \<open>
  Claim C9, as stated, fails: \<open>wrapError\<close> is not idempotent. Applied to an error that it
  has already wrapped, it finds the same graph node and attaches the node's locations
  once more.
\<close>

theorem wrapError_twice_counterexample:
  "wrapError rq_mapped (Some err_vertex) = Returns (Some err_wrapped) \<and>
   wrapError rq_mapped (Some err_wrapped) =
     Returns (Some (ErrorSource (Source ''Dockerfile'' [((3, 0), (3, 5))])
       (ErrorSource (Source ''Dockerfile'' [((1, 0), (1, 10))]) err_wrapped))) \<and>
   wrapError rq_mapped (Some err_wrapped) \<noteq> Returns (Some err_wrapped) \<and>
   length (annotations err_wrapped) = 2"
  by (simp add: wrapError_def rq_mapped_def err_vertex_def err_wrapped_def source_of_def)

text \<open>
  Claim C9, amended. \<open>wrapError\<close> is a function of the request and the error. It returns
  nil for nil, and returns the error unchanged when the error identifies no graph node,
  when the definition carries no source map, and when the source map has no entry for the
  node. Otherwise, when it returns, it has attached one annotation for each recorded
  location of the node, in their order, after the annotations the error carried; the
  result identifies the same node, so a second application attaches the same annotations
  once more.
\<close>

theorem wrapError_attaches_locations:
  "wrapError rq None = Returns None \<and>
   (as_VertexError e = None \<longrightarrow> wrapError rq (Some e) = Returns (Some e)) \<and>
   (Definition rq = Some d \<and> def_Source d = None \<longrightarrow> wrapError rq (Some e) = Returns (Some e)) \<and>
   (as_VertexError e = Some dgst \<and> Definition rq = Some d \<and> def_Source d = Some src \<and>
    Locations src dgst = None \<longrightarrow> wrapError rq (Some e) = Returns (Some e)) \<and>
   (as_VertexError e = Some dgst \<and> Definition rq = Some d \<and> def_Source d = Some src \<and>
    Locations src dgst = Some locs \<and> wrapError rq (Some e) = Returns (Some e') \<longrightarrow>
      annotations e' = annotations e @ map (source_of (Infos src)) locs \<and>
      as_VertexError e' = Some dgst \<and>
      (\<exists>e''. wrapError rq (Some e') = Returns (Some e'') \<and>
         annotations e'' =
           annotations e @ map (source_of (Infos src)) locs @ map (source_of (Infos src)) locs))"
proof -
  have c2: "wrapError rq (Some e) = Returns (Some e)" if "as_VertexError e = None"
    using that by (simp add: wrapError_def)
  have c3: "wrapError rq (Some e) = Returns (Some e)"
    if "Definition rq = Some d" and "def_Source d = None"
    using that by (simp add: wrapError_def split: option.splits)
  have c4: "wrapError rq (Some e) = Returns (Some e)"
    if "as_VertexError e = Some dgst" and "Definition rq = Some d" and "def_Source d = Some src"
      and "Locations src dgst = None"
    using that by (simp add: wrapError_def)
  have c5: "annotations e' = annotations e @ map (source_of (Infos src)) locs \<and>
      as_VertexError e' = Some dgst \<and>
      (\<exists>e''. wrapError rq (Some e') = Returns (Some e'') \<and>
         annotations e'' =
           annotations e @ map (source_of (Infos src)) locs @ map (source_of (Infos src)) locs)"
    if v: "as_VertexError e = Some dgst" and d: "Definition rq = Some d"
      and s: "def_Source d = Some src" and l: "Locations src dgst = Some locs"
      and w: "wrapError rq (Some e) = Returns (Some e')"
  proof -
    have a: "attach (Infos src) locs e = Returns e'"
      using v d s l w by (simp add: wrapError_def split: outcome.splits)
    have e': "e' = attached (Infos src) locs e" and ok: "list_all (in_range (Infos src)) locs"
      using attach_Returns [OF a] by simp_all
    have v': "as_VertexError e' = Some dgst"
      by (simp add: e' as_VertexError_attached v)
    have w2: "wrapError rq (Some e') = Returns (Some (attached (Infos src) locs e'))"
      using v' d s l ok by (simp add: wrapError_def attach_in_range)
    show ?thesis
      using v' w2 by (simp add: e' annotations_attached)
  qed
  show ?thesis using c2 c3 c4 c5 by (simp add: wrapError_nil)
qed

theorem wrapError_attaches_locations_witness:
  "wrapError rq0 (Some err_vertex) = Returns (Some err_vertex) \<and>
   wrapError rq_mapped (Some (Errorf ''exit code 1'' [])) = Returns (Some (Errorf ''exit code 1'' [])) \<and>
   annotations err_wrapped =
     [Source ''Dockerfile'' [((1, 0), (1, 10))], Source ''Dockerfile'' [((3, 0), (3, 5))]]"
proof -
  let ?src = "\<lparr>Locations = [''sha256:aa'' \<mapsto>
      [Location 0 [((1, 0), (1, 10))], Location 0 [((3, 0), (3, 5))]]], Infos = [''Dockerfile'']\<rparr>"
  have w: "wrapError rq_mapped (Some err_vertex) = Returns (Some err_wrapped)"
    by (simp add: wrapError_def rq_mapped_def err_vertex_def err_wrapped_def source_of_def)
  have v: "as_VertexError err_vertex = Some ''sha256:aa''"
    by (simp add: err_vertex_def)
  have d: "Definition rq_mapped = Some \<lparr>def_Source = Some ?src\<rparr>"
    by (simp add: rq_mapped_def)
  have d0: "Definition rq0 = Some \<lparr>def_Source = None\<rparr>"
    by (simp add: rq0_def)
  show ?thesis
    using wrapError_attaches_locations [where rq = rq0 and e = err_vertex
        and d = "\<lparr>def_Source = None\<rparr>"]
      wrapError_attaches_locations [where rq = rq_mapped and e = "Errorf ''exit code 1'' []"]
      wrapError_attaches_locations [where rq = rq_mapped and e = err_vertex
        and dgst = "''sha256:aa''" and d = "\<lparr>def_Source = Some ?src\<rparr>" and src = ?src
        and e' = err_wrapped
        and locs = "[Location 0 [((1, 0), (1, 10))], Location 0 [((3, 0), (3, 5))]]"]
      w v d d0
    by (simp add: source_of_def err_vertex_def)
qed


subsection \<open>Entitlements of a sandboxed process\<close>

text \<open>
  Claim C10. \<open>validateEntitlements\<close> reads two things of the process: whether its network
  mode is the host mode and whether its security mode is the insecure mode. Two processes
  that agree on both get the same answer. With the check of the entitlement set as the
  spec describes it, a process whose network mode is not host and whose security mode is
  not insecure passes whenever the entitlements load, whatever was granted.
\<close>

theorem validateEntitlements_modes:
  "((meta_NetMode p = NetMode_HOST) = (meta_NetMode p' = NetMode_HOST) \<and>
    (meta_SecurityMode p = SecurityMode_INSECURE) = (meta_SecurityMode p' = SecurityMode_INSECURE)
    \<longrightarrow> validateEntitlements B p = validateEntitlements B p') \<and>
   (loadEntitlements G = Inr g \<and> ent_Check G = entitlements_Check \<and>
    meta_NetMode p \<noteq> NetMode_HOST \<and> meta_SecurityMode p \<noteq> SecurityMode_INSECURE
    \<longrightarrow> validateEntitlements G p = None)"
  by (simp add: validateEntitlements_def entitlements_Check_def split: sum.splits)

theorem validateEntitlements_modes_witness:
  "validateEntitlements benv_nogrant proc_plain = None \<and>
   validateEntitlements benv_nogrant
     \<lparr>meta_NetMode = NetMode_NONE, meta_SecurityMode = SecurityMode_SANDBOX\<rparr> = None"
  using validateEntitlements_modes [where p = proc_plain and G = benv_nogrant
      and g = "\<lparr>allow_NetworkHost = False, allow_SecurityInsecure = False\<rparr>"
      and B = benv_nogrant
      and p' = "\<lparr>meta_NetMode = NetMode_NONE, meta_SecurityMode = SecurityMode_SANDBOX\<rparr>"]
  by (auto simp: benv_nogrant_def proc_plain_def)

end
